theory Spec2Isabelle
  imports Main "HOL-Library.Multiset"
begin

section \<open>The command palette component (src/src/CommandPalette.vue)\<close>

text \<open>
  The script block of the component is embedded function by function. A command is a
  JavaScript object; the component compares commands by strict equality
  (\<open>Array.prototype.indexOf\<close>), that is by object identity, so a command is represented
  by its reference and the objects live in a heap. The component only reads them.
\<close>

subsection \<open>Data\<close>

type_synonym addr = nat

text \<open>
  The reactive state of one component instance: the \<open>commands\<close> prop (an array of
  references), the \<open>visible\<close> model (a Boolean prop, so an absent binding reads \<open>false\<close>)
  and the three refs of the script. \<open>selectedIndex\<close> is a JavaScript number that only ever
  holds integers here (\<open>0\<close>, \<open>\<plusminus>1\<close> steps, \<open>length - 1\<close>, the result of \<open>indexOf\<close>).
\<close>

record component =
  commands :: "addr list"
  visible :: bool
  searchQuery :: string
  selectedIndex :: int
  isKeyboardNavigation :: bool

text \<open>
  \<open>interface CommandItem\<close>. The action is a callable of the host; what it does is not
  part of the component. It is modelled by its effect on the component instance as the
  next event sees it (the host can write the \<open>visible\<close> binding and call the exposed
  \<open>openPanel\<close>/\<open>closePanel\<close>); an action that does not touch the component is the identity.
  Exceptions thrown by an action are not modelled.
\<close>

record CommandItem =
  id_cmd :: string
  title :: string
  description :: "string option"
  icon :: "string option"
  action :: "component \<Rightarrow> component"
  category :: "string option"

type_synonym heap = "addr \<Rightarrow> CommandItem"

record KeyboardEvent =
  key :: string
  metaKey :: bool
  ctrlKey :: bool

text \<open>
  What a handler asks of its environment, in the order of the calls:
  \<open>event.preventDefault()\<close>, the \<open>nextTick\<close> that focuses the input, the call of
  \<open>scrollToSelectedCommand()\<close> (which scrolls once the list element is mounted), the
  \<open>setTimeout\<close> of 100 ms that clears the keyboard-navigation flag, and the call of a
  command's action.
\<close>

datatype effect = PreventDefault | FocusInput | ScrollToSelected | ResetNavLater | Call addr

datatype error = TypeError

text \<open>A handler returns, or throws after the assignments it has already made.\<close>

datatype outcome =
  Returned (state: component) (effects: "effect list")
| Threw (thrown: error) (state: component) (effects: "effect list")

subsection \<open>The \<open>groups\<close> object of \<open>groupedCommands\<close>\<close>

text \<open>
  \<open>groups\<close> is a plain object created by \<open>{}\<close>: its own properties are kept in the order
  of their creation, and a property it does not own is looked up on \<open>Object.prototype\<close>.
  The names below are the properties of \<open>Object.prototype\<close> in a standard environment;
  each holds a function (\<open>__proto__\<close> reads the prototype object itself), all truthy and
  none with a \<open>push\<close> method.
\<close>

type_synonym groups = "(string \<times> addr list) list"

definition objectPrototypeKeys :: "string list" where
  "objectPrototypeKeys =
     [''constructor'', ''__defineGetter__'', ''__defineSetter__'', ''hasOwnProperty'',
      ''__lookupGetter__'', ''__lookupSetter__'', ''isPrototypeOf'',
      ''propertyIsEnumerable'', ''toString'', ''valueOf'', ''__proto__'',
      ''toLocaleString'']"

datatype jsval = Undefined | Array "addr list" | Inherited

definition getProp :: "groups \<Rightarrow> string \<Rightarrow> jsval" where
  "getProp g k =
     (case map_of g k of
        Some xs \<Rightarrow> Array xs
      | None \<Rightarrow> if k \<in> set objectPrototypeKeys then Inherited else Undefined)"

fun truthy :: "jsval \<Rightarrow> bool" where
  "truthy Undefined = False"
| "truthy (Array xs) = True"
| "truthy Inherited = True"

text \<open>
  Assignment to a property: an own property keeps its place, a new one is created last.
  (The component assigns only where the lookup was falsy, hence never to an inherited
  name.)
\<close>

fun setProp :: "groups \<Rightarrow> string \<Rightarrow> addr list \<Rightarrow> groups" where
  "setProp [] k v = [(k, v)]"
| "setProp ((k', v') # g) k v =
     (if k' = k then (k, v) # g else (k', v') # setProp g k v)"

text \<open>\<open>command.category || 'Other'\<close>: an absent and an empty category are both falsy.\<close>

definition categoryOf :: "CommandItem \<Rightarrow> string" where
  "categoryOf cmd =
     (case category cmd of
        None \<Rightarrow> ''Other''
      | Some s \<Rightarrow> if s = [] then ''Other'' else s)"

text \<open>
  The body of the \<open>forEach\<close> callback. \<open>groups[category].push(command)\<close> throws a
  TypeError when \<open>groups[category]\<close> is an inherited value, which has no \<open>push\<close>.
\<close>

definition groupStep :: "heap \<Rightarrow> groups \<Rightarrow> addr \<Rightarrow> error + groups" where
  "groupStep h g a =
     (let cat = categoryOf (h a);
          g1 = (if \<not> truthy (getProp g cat) then setProp g cat [] else g)
      in case getProp g1 cat of
           Array xs \<Rightarrow> Inr (setProp g1 cat (xs @ [a]))
         | Undefined \<Rightarrow> Inl TypeError
         | Inherited \<Rightarrow> Inl TypeError)"

fun forEachCommand :: "heap \<Rightarrow> addr list \<Rightarrow> groups \<Rightarrow> error + groups" where
  "forEachCommand h [] g = Inr g"
| "forEachCommand h (a # as) g =
     (case groupStep h g a of
        Inl e \<Rightarrow> Inl e
      | Inr g' \<Rightarrow> forEachCommand h as g')"

definition groupedCommands :: "heap \<Rightarrow> component \<Rightarrow> error + groups" where
  "groupedCommands h c = forEachCommand h (commands c) []"

subsection \<open>\<open>Object.keys\<close> and \<open>flattenedCommands\<close>\<close>

text \<open>
  \<open>Object.keys\<close> lists the own keys that are array indices first, in ascending numeric
  order, and then the other keys in the order of their creation. An array index is the
  canonical decimal form of an integer from \<open>0\<close> to \<open>2^32 - 2\<close>.
\<close>

definition isDigit :: "char \<Rightarrow> bool" where
  "isDigit ch = (48 \<le> (of_char ch :: nat) \<and> (of_char ch :: nat) \<le> 57)"

definition parseNat :: "string \<Rightarrow> nat" where
  "parseNat s = foldl (\<lambda>n ch. 10 * n + (of_char ch - 48)) 0 s"

definition isArrayIndex :: "string \<Rightarrow> bool" where
  "isArrayIndex s =
     (s \<noteq> [] \<and> list_all isDigit s \<and> (length s = 1 \<or> hd s \<noteq> CHR ''0'')
      \<and> parseNat s < 2 ^ 32 - 1)"

definition objectKeys :: "groups \<Rightarrow> string list" where
  "objectKeys g =
     (let ks = map fst g
      in sort_key parseNat (filter isArrayIndex ks) @ filter (\<lambda>k. \<not> isArrayIndex k) ks)"

text \<open>
  The callback of \<open>Object.keys(groups).forEach\<close>:
  \<open>if (groups[category]) result.push(...groups[category])\<close>. Spreading an inherited value
  would throw; the keys are own keys, so this branch is never taken.
\<close>

fun forEachKey :: "groups \<Rightarrow> string list \<Rightarrow> addr list \<Rightarrow> error + addr list" where
  "forEachKey g [] result = Inr result"
| "forEachKey g (k # ks) result =
     (case getProp g k of
        Undefined \<Rightarrow> forEachKey g ks result
      | Array xs \<Rightarrow> forEachKey g ks (result @ xs)
      | Inherited \<Rightarrow> Inl TypeError)"

definition flattenedCommands :: "heap \<Rightarrow> component \<Rightarrow> error + addr list" where
  "flattenedCommands h c =
     (case groupedCommands h c of
        Inl e \<Rightarrow> Inl e
      | Inr g \<Rightarrow> forEachKey g (objectKeys g) [])"

subsection \<open>Array access\<close>

text \<open>\<open>indexOf\<close>: the first position holding the same object, or \<open>-1\<close>.\<close>

fun indexFrom :: "addr list \<Rightarrow> addr \<Rightarrow> int \<Rightarrow> int" where
  "indexFrom [] a i = - 1"
| "indexFrom (x # xs) a i = (if x = a then i else indexFrom xs a (i + 1))"

definition indexOf :: "addr list \<Rightarrow> addr \<Rightarrow> int" where
  "indexOf xs a = indexFrom xs a 0"

text \<open>\<open>xs[i]\<close>: \<open>undefined\<close> outside the array.\<close>

definition atIndex :: "addr list \<Rightarrow> int \<Rightarrow> addr option" where
  "atIndex xs i = (if 0 \<le> i \<and> i < int (length xs) then Some (xs ! nat i) else None)"

subsection \<open>The functions of the script\<close>

definition closePanel :: "component \<Rightarrow> component" where
  "closePanel c =
     c\<lparr>visible := False, searchQuery := [], selectedIndex := 0,
       isKeyboardNavigation := False\<rparr>"

definition openPanel :: "component \<Rightarrow> component \<times> effect list" where
  "openPanel c =
     (c\<lparr>visible := True, selectedIndex := 0, searchQuery := [],
        isKeyboardNavigation := False\<rparr>, [FocusInput])"

definition executeCommand :: "heap \<Rightarrow> addr \<Rightarrow> component \<Rightarrow> component \<times> effect list" where
  "executeCommand h a c = (action (h a) c, [Call a])"

definition handleMouseEnter :: "heap \<Rightarrow> addr \<Rightarrow> component \<Rightarrow> outcome" where
  "handleMouseEnter h a c =
     (if isKeyboardNavigation c then Returned c []
      else case flattenedCommands h c of
             Inl e \<Rightarrow> Threw e c []
           | Inr flat \<Rightarrow> Returned (c\<lparr>selectedIndex := indexOf flat a\<rparr>) [])"

definition handleKeydown :: "heap \<Rightarrow> KeyboardEvent \<Rightarrow> component \<Rightarrow> outcome" where
  "handleKeydown h event c =
     (if \<not> visible c then Returned c []
      else if key event = ''Escape'' then Returned (closePanel c) [PreventDefault]
      else if key event = ''ArrowDown'' then
        (let c1 = c\<lparr>isKeyboardNavigation := True\<rparr>
         in case flattenedCommands h c1 of
              Inl e \<Rightarrow> Threw e c1 [PreventDefault]
            | Inr flat \<Rightarrow>
                Returned
                  (c1\<lparr>selectedIndex := min (selectedIndex c1 + 1) (int (length flat) - 1)\<rparr>)
                  [PreventDefault, ScrollToSelected, ResetNavLater])
      else if key event = ''ArrowUp'' then
        Returned
          (c\<lparr>isKeyboardNavigation := True, selectedIndex := max (selectedIndex c - 1) 0\<rparr>)
          [PreventDefault, ScrollToSelected, ResetNavLater]
      else if key event = ''Enter'' then
        (case flattenedCommands h c of
           Inl e \<Rightarrow> Threw e c [PreventDefault]
         | Inr flat \<Rightarrow>
             (case atIndex flat (selectedIndex c) of
                None \<Rightarrow> Returned c [PreventDefault]
              | Some a \<Rightarrow>
                  (case executeCommand h a c of
                     (c', es) \<Rightarrow> Returned c' (PreventDefault # es))))
      else Returned c [])"

definition handleGlobalKeydown :: "KeyboardEvent \<Rightarrow> component \<Rightarrow> component \<times> effect list" where
  "handleGlobalKeydown event c =
     (if (metaKey event \<or> ctrlKey event) \<and> key event = ''k'' then
        (if visible c then (closePanel c, [PreventDefault])
         else (case openPanel c of (c', es) \<Rightarrow> (c', PreventDefault # es)))
      else (c, []))"

text \<open>The callback of the 100 ms timer started by an arrow key.\<close>

definition navTimerFired :: "component \<Rightarrow> component" where
  "navTimerFired c = c\<lparr>isKeyboardNavigation := False\<rparr>"

text \<open>
  \<open>watch(searchQuery, ...)\<close>: when the watchers are flushed, the callback runs if the
  value differs from the one seen before. \<open>onInput\<close> is an input event of the search field
  (\<open>v-model="searchQuery"\<close>) followed by that flush.
\<close>

definition watchSearchQuery :: "string \<Rightarrow> component \<Rightarrow> component" where
  "watchSearchQuery old c = (if searchQuery c \<noteq> old then c\<lparr>selectedIndex := 0\<rparr> else c)"

definition onInput :: "string \<Rightarrow> component \<Rightarrow> component" where
  "onInput q c = watchSearchQuery (searchQuery c) (c\<lparr>searchQuery := q\<rparr>)"

text \<open>A run of key presses on the open panel; a throw ends it.\<close>

fun pressKeys :: "heap \<Rightarrow> KeyboardEvent list \<Rightarrow> component \<Rightarrow> outcome" where
  "pressKeys h [] c = Returned c []"
| "pressKeys h (e # es) c =
     (case handleKeydown h e c of
        Threw err c' fx \<Rightarrow> Threw err c' fx
      | Returned c' fx \<Rightarrow>
          (case pressKeys h es c' of
             Threw err c'' fx' \<Rightarrow> Threw err c'' (fx @ fx')
           | Returned c'' fx' \<Rightarrow> Returned c'' (fx @ fx')))"

subsection \<open>The specification's vocabulary\<close>

text \<open>
  The words of the specification, written beside the code to compare the two: the
  categories of a command list in first-seen order, the commands of one category in
  input order, and the mapping the specification describes.
\<close>

definition firstSeen :: "'a list \<Rightarrow> 'a list" where
  "firstSeen xs = rev (remdups (rev xs))"

definition categories :: "heap \<Rightarrow> addr list \<Rightarrow> string list" where
  "categories h cmds = map (\<lambda>a. categoryOf (h a)) cmds"

definition groupOf :: "heap \<Rightarrow> addr list \<Rightarrow> string \<Rightarrow> addr list" where
  "groupOf h cmds k = filter (\<lambda>a. categoryOf (h a) = k) cmds"

definition specGroups :: "heap \<Rightarrow> addr list \<Rightarrow> groups" where
  "specGroups h cmds = map (\<lambda>k. (k, groupOf h cmds k)) (firstSeen (categories h cmds))"

subsection \<open>Example inputs\<close>

text \<open>
  Two actions: one that does not touch the component (it only logs), and the one of the
  playground's commands (src/playground/src/App.vue), which sets the bound \<open>visible\<close> to
  \<open>false\<close>.
\<close>

definition logOnly :: "component \<Rightarrow> component" where
  "logOnly c = c"

definition hide :: "component \<Rightarrow> component" where
  "hide c = c\<lparr>visible := False\<rparr>"

definition mkCommand ::
  "string \<Rightarrow> string option \<Rightarrow> (component \<Rightarrow> component) \<Rightarrow> CommandItem" where
  "mkCommand i cat act =
     \<lparr>id_cmd = i, title = i, description = None, icon = None, action = act, category = cat\<rparr>"

text \<open>
  Eight command objects. Objects 0 and 1 are different objects with the same id; 2 closes
  the panel as the playground's commands do; 3 and 5 have categories that are array
  indices; 4 has no category and 7 an empty one; the category of 6 names a property of
  \<open>Object.prototype\<close>.
\<close>

definition demoHeap :: heap where
  "demoHeap a =
     (if a = 0 then mkCommand ''a'' (Some ''File'') logOnly
      else if a = 1 then mkCommand ''a'' (Some ''File'') logOnly
      else if a = 2 then mkCommand ''c'' (Some ''System'') hide
      else if a = 3 then mkCommand ''d'' (Some ''2'') logOnly
      else if a = 4 then mkCommand ''e'' None logOnly
      else if a = 5 then mkCommand ''f'' (Some ''10'') logOnly
      else if a = 6 then mkCommand ''g'' (Some ''constructor'') logOnly
      else mkCommand ''h'' (Some []) logOnly)"

definition panel :: "addr list \<Rightarrow> bool \<Rightarrow> string \<Rightarrow> int \<Rightarrow> component" where
  "panel cmds v q i =
     \<lparr>commands = cmds, visible = v, searchQuery = q, selectedIndex = i,
      isKeyboardNavigation = False\<rparr>"

definition pressed :: "string \<Rightarrow> KeyboardEvent" where
  "pressed k = \<lparr>key = k, metaKey = False, ctrlKey = False\<rparr>"

definition hotkey :: KeyboardEvent where
  "hotkey = \<lparr>key = ''k'', metaKey = True, ctrlKey = False\<rparr>"

section \<open>Properties\<close>

subsection \<open>Grouping follows the specification's mapping\<close>

lemma firstSeen_snoc:
  "firstSeen (xs @ [x]) = (if x \<in> set xs then firstSeen xs else firstSeen xs @ [x])"
  by (simp add: firstSeen_def)

lemma set_firstSeen: "set (firstSeen xs) = set xs"
  by (simp add: firstSeen_def)

lemma distinct_firstSeen: "distinct (firstSeen xs)"
  by (simp add: firstSeen_def)

text \<open>First-seen order, read from the front: an element, then the rest without it.\<close>

lemma remdups_snoc: "remdups (ys @ [x]) = filter (\<lambda>y. y \<noteq> x) (remdups ys) @ [x]"
  by (induction ys) auto

lemma firstSeen_Cons: "firstSeen (x # xs) = x # filter (\<lambda>y. y \<noteq> x) (firstSeen xs)"
  by (simp add: firstSeen_def remdups_snoc rev_filter)

lemma map_of_tabulate:
  "map_of (map (\<lambda>k. (k, f k)) ks) k = (if k \<in> set ks then Some (f k) else None)"
  by (induction ks) auto

lemma setProp_fresh:
  "k \<notin> set ks \<Longrightarrow>
   setProp (map (\<lambda>k. (k, f k)) ks) k v = map (\<lambda>k. (k, f k)) ks @ [(k, v)]"
  by (induction ks) auto

lemma setProp_own:
  "distinct ks \<Longrightarrow> k \<in> set ks \<Longrightarrow>
   setProp (map (\<lambda>k'. (k', f k')) ks) k v =
   map (\<lambda>k'. (k', if k' = k then v else f k')) ks"
  by (induction ks) auto

lemma setProp_last:
  "k \<notin> set ks \<Longrightarrow>
   setProp (map (\<lambda>k. (k, f k)) ks @ [(k, v)]) k w = map (\<lambda>k. (k, f k)) ks @ [(k, w)]"
  by (induction ks) auto

lemma groupOf_snoc:
  "groupOf h (xs @ [a]) k =
   (if categoryOf (h a) = k then groupOf h xs k @ [a] else groupOf h xs k)"
  by (simp add: groupOf_def)

lemma groupOf_absent: "k \<notin> set (categories h xs) \<Longrightarrow> groupOf h xs k = []"
  by (auto simp: groupOf_def categories_def filter_empty_conv)

lemma groupStep_specGroups:
  assumes "categoryOf (h a) \<notin> set objectPrototypeKeys"
  shows "groupStep h (specGroups h xs) a = Inr (specGroups h (xs @ [a]))"
proof (cases "categoryOf (h a) \<in> set (categories h xs)")
  case True
  then have "categoryOf (h a) \<in> set (firstSeen (categories h xs))"
    by (simp add: set_firstSeen)
  then show ?thesis using True
    by (auto simp: groupStep_def getProp_def specGroups_def map_of_tabulate set_firstSeen
        setProp_own distinct_firstSeen categories_def firstSeen_snoc groupOf_snoc Let_def)
next
  case False
  then have nin: "categoryOf (h a) \<notin> set (firstSeen (categories h xs))"
    by (simp add: set_firstSeen)
  have cats: "categories h (xs @ [a]) = categories h xs @ [categoryOf (h a)]"
    by (simp add: categories_def)
  have same: "\<And>k. k \<in> set (firstSeen (categories h xs)) \<Longrightarrow>
                groupOf h (xs @ [a]) k = groupOf h xs k"
    using nin by (auto simp: groupOf_snoc)
  let ?k = "categoryOf (h a)"
  let ?g = "map (\<lambda>k. (k, groupOf h xs k)) (firstSeen (categories h xs))"
  have undef: "getProp ?g ?k = Undefined"
    using assms nin by (simp add: getProp_def map_of_tabulate)
  have g1: "setProp ?g ?k [] = ?g @ [(?k, [])]"
    using nin by (rule setProp_fresh)
  have arr: "getProp (?g @ [(?k, [])]) ?k = Array []"
    using nin by (simp add: getProp_def map_of_tabulate map_add_def)
  have g2: "setProp (?g @ [(?k, [])]) ?k [a] = ?g @ [(?k, [a])]"
    using nin by (rule setProp_last)
  have step: "groupStep h ?g a = Inr (?g @ [(?k, [a])])"
    by (simp add: groupStep_def Let_def undef g1 arr g2)
  have "specGroups h (xs @ [a]) = ?g @ [(?k, [a])]"
    using False nin same
    by (simp add: specGroups_def cats firstSeen_snoc groupOf_snoc groupOf_absent)
  with step show ?thesis by (simp add: specGroups_def)
qed

lemma forEachCommand_specGroups:
  "\<forall>a \<in> set as. categoryOf (h a) \<notin> set objectPrototypeKeys \<Longrightarrow>
   forEachCommand h as (specGroups h pre) = Inr (specGroups h (pre @ as))"
proof (induction as arbitrary: pre)
  case Nil
  then show ?case by simp
next
  case (Cons a as)
  then show ?case using Cons.IH [of "pre @ [a]"]
    by (simp add: groupStep_specGroups)
qed

lemma groupedCommands_specGroups:
  "\<forall>a \<in> set (commands c). categoryOf (h a) \<notin> set objectPrototypeKeys \<Longrightarrow>
   groupedCommands h c = Inr (specGroups h (commands c))"
  using forEachCommand_specGroups [of "commands c" h "[]"]
  by (simp add: groupedCommands_def specGroups_def categories_def firstSeen_def)

lemma forEachKey_own:
  "set ks \<subseteq> set ks0 \<Longrightarrow>
   forEachKey (map (\<lambda>k. (k, f k)) ks0) ks result = Inr (result @ concat (map f ks))"
  by (induction ks arbitrary: result) (auto simp: getProp_def map_of_tabulate)

lemma set_objectKeys: "set (objectKeys g) = fst ` set g"
  by (auto simp: objectKeys_def Let_def)

lemma distinct_objectKeys: "distinct (map fst g) \<Longrightarrow> distinct (objectKeys g)"
  by (auto simp: objectKeys_def Let_def)

lemma objectKeys_no_index:
  "\<forall>k \<in> fst ` set g. \<not> isArrayIndex k \<Longrightarrow> objectKeys g = map fst g"
  by (auto simp: objectKeys_def Let_def filter_empty_conv filter_id_conv)

lemma fst_specGroups: "map fst (specGroups h xs) = firstSeen (categories h xs)"
  by (simp add: specGroups_def comp_def)

lemma filter_groupOf:
  "filter (\<lambda>a. categoryOf (h a) = k) (groupOf h xs k') =
   (if k = k' then groupOf h xs k else [])"
  by (auto simp: groupOf_def filter_empty_conv)

lemma filter_concat_groups:
  "distinct ks \<Longrightarrow>
   filter (\<lambda>a. categoryOf (h a) = k) (concat (map (groupOf h xs) ks)) =
   (if k \<in> set ks then groupOf h xs k else [])"
  by (induction ks) (auto simp: filter_groupOf)

lemma mset_concat_groups:
  "distinct ks \<Longrightarrow>
   mset (concat (map (groupOf h xs) ks)) =
   mset (filter (\<lambda>a. categoryOf (h a) \<in> set ks) xs)"
proof (induction ks)
  case Nil
  then show ?case by simp
next
  case (Cons k ks)
  have "mset (groupOf h xs k) + mset (filter (\<lambda>a. categoryOf (h a) \<in> set ks) xs) =
        mset (filter (\<lambda>a. categoryOf (h a) \<in> set (k # ks)) xs)"
    using Cons.prems by (induction xs) (auto simp: groupOf_def)
  with Cons show ?case by simp
qed

lemma mset_concat_all_groups:
  assumes "distinct ks" and "set (categories h xs) \<subseteq> set ks"
  shows "mset (concat (map (groupOf h xs) ks)) = mset xs"
proof -
  have "filter (\<lambda>a. categoryOf (h a) \<in> set ks) xs = xs"
    using assms(2) by (auto simp: filter_id_conv categories_def)
  with mset_concat_groups [OF assms(1), of h xs] show ?thesis by simp
qed

lemma flattenedCommands_specGroups:
  assumes "\<forall>a \<in> set (commands c). categoryOf (h a) \<notin> set objectPrototypeKeys"
  shows "flattenedCommands h c =
         Inr (concat (map (groupOf h (commands c)) (objectKeys (specGroups h (commands c)))))"
proof -
  have "set (objectKeys (specGroups h (commands c))) \<subseteq>
        set (firstSeen (categories h (commands c)))"
    using set_objectKeys [of "specGroups h (commands c)"] fst_specGroups [of h "commands c"]
    by (metis set_map subset_refl)
  then have "forEachKey (specGroups h (commands c)) (objectKeys (specGroups h (commands c))) [] =
        Inr ([] @ concat (map (groupOf h (commands c)) (objectKeys (specGroups h (commands c)))))"
    unfolding specGroups_def by (rule forEachKey_own)
  then show ?thesis
    by (simp add: flattenedCommands_def groupedCommands_specGroups [OF assms])
qed


subsection \<open>Evaluation of the examples\<close>

lemmas model_defs =
  flattenedCommands_def groupedCommands_def groupStep_def getProp_def objectPrototypeKeys_def
  categoryOf_def objectKeys_def isArrayIndex_def isDigit_def parseNat_def handleKeydown_def
  handleGlobalKeydown_def handleMouseEnter_def atIndex_def executeCommand_def openPanel_def
  closePanel_def onInput_def watchSearchQuery_def indexOf_def

lemmas demo_defs =
  demoHeap_def mkCommand_def panel_def pressed_def hotkey_def logOnly_def hide_def

lemma flattenedCommands_cong:
  "commands c1 = commands c2 \<Longrightarrow> flattenedCommands h c1 = flattenedCommands h c2"
  by (simp add: flattenedCommands_def groupedCommands_def)

subsection \<open>Executing a command\<close>

text \<open>
  C1 as the specification states it fails. With the panel open on the commands 0, 1, 2,
  the query \<open>fi\<close> typed and command 1 selected, Enter calls the action of command 1, which
  only logs; the panel stays open, the query stays \<open>fi\<close> and the selection stays 1. A click
  on the item does the same.
\<close>

theorem executing_does_not_close_counterexample:
  "handleKeydown demoHeap (pressed ''Enter'') (panel [0, 1, 2] True ''fi'' 1) =
     Returned (panel [0, 1, 2] True ''fi'' 1) [PreventDefault, Call 1]
   \<and> executeCommand demoHeap 1 (panel [0, 1, 2] True ''fi'' 1) =
     (panel [0, 1, 2] True ''fi'' 1, [Call 1])
   \<and> visible (panel [0, 1, 2] True ''fi'' 1) = True
   \<and> searchQuery (panel [0, 1, 2] True ''fi'' 1) = ''fi''
   \<and> selectedIndex (panel [0, 1, 2] True ''fi'' 1) = 1"
  by (simp add: model_defs demo_defs)

text \<open>
  C1, amended: for every flattened list and every selected index inside it, Enter on the
  open panel calls exactly the action of the command at the selected index, and a click
  on an item calls exactly the action of that command (\<open>executeCommand\<close>). The component
  makes no assignment of its own: the state afterwards is the state the action leaves, so
  the panel is closed, and query and index are reset, only as far as the action does it.
\<close>

theorem executing_runs_only_the_action:
  assumes "visible c"
    and "flattenedCommands h c = Inr flat"
    and "0 \<le> selectedIndex c" and "selectedIndex c < int (length flat)"
    and "key e = ''Enter''"
  shows "handleKeydown h e c =
           Returned (action (h (flat ! nat (selectedIndex c))) c)
             [PreventDefault, Call (flat ! nat (selectedIndex c))]
         \<and> executeCommand h a c = (action (h a) c, [Call a])"
  using assms by (simp add: handleKeydown_def atIndex_def executeCommand_def)

theorem executing_runs_only_the_action_witness:
  "handleKeydown demoHeap (pressed ''Enter'') (panel [0, 1, 2] True ''fi'' 2) =
     Returned (panel [0, 1, 2] False ''fi'' 2) [PreventDefault, Call 2]
   \<and> executeCommand demoHeap 0 (panel [0, 1, 2] True ''fi'' 2) =
     (panel [0, 1, 2] True ''fi'' 2, [Call 0])"
  using executing_runs_only_the_action
    [of "panel [0, 1, 2] True ''fi'' 2" demoHeap "[0, 1, 2]" "pressed ''Enter''" 0]
  by (simp add: model_defs demo_defs)

text \<open>
  C10: invoking a command, by Enter on the selected command or by a click, calls that
  command's action and nothing else. When the action does not touch the component, all
  of \<open>visible\<close>, \<open>searchQuery\<close>, \<open>selectedIndex\<close> and \<open>isKeyboardNavigation\<close> are as before.
  When the action closes the panel through the \<open>visible\<close> binding, as the playground's
  commands do, \<open>visible\<close> is all that changes: the component resets neither the query nor
  the index.
\<close>

theorem execution_leaves_widget_state:
  assumes "visible c"
    and "flattenedCommands h c = Inr flat"
    and "atIndex flat (selectedIndex c) = Some a"
    and "key e = ''Enter''"
  shows "(action (h a) c = c \<longrightarrow>
            handleKeydown h e c = Returned c [PreventDefault, Call a]
            \<and> executeCommand h a c = (c, [Call a]))
         \<and> (action (h a) c = c\<lparr>visible := False\<rparr> \<longrightarrow>
            handleKeydown h e c = Returned (c\<lparr>visible := False\<rparr>) [PreventDefault, Call a]
            \<and> executeCommand h a c = (c\<lparr>visible := False\<rparr>, [Call a]))"
  using assms by (simp add: handleKeydown_def executeCommand_def)

theorem execution_leaves_widget_state_witness:
  "handleKeydown demoHeap (pressed ''Enter'') (panel [0, 1, 2] True ''ab'' 0) =
     Returned (panel [0, 1, 2] True ''ab'' 0) [PreventDefault, Call 0]
   \<and> executeCommand demoHeap 0 (panel [0, 1, 2] True ''ab'' 0) =
     (panel [0, 1, 2] True ''ab'' 0, [Call 0])
   \<and> handleKeydown demoHeap (pressed ''Enter'') (panel [0, 1, 2] True ''ab'' 2) =
     Returned (panel [0, 1, 2] False ''ab'' 2) [PreventDefault, Call 2]"
  using execution_leaves_widget_state
    [of "panel [0, 1, 2] True ''ab'' 0" demoHeap "[0, 1, 2]" 0 "pressed ''Enter''"]
    execution_leaves_widget_state
    [of "panel [0, 1, 2] True ''ab'' 2" demoHeap "[0, 1, 2]" 2 "pressed ''Enter''"]
  by (simp add: model_defs demo_defs)

subsection \<open>Opening, closing and the hotkey\<close>

text \<open>
  C4: from every state, \<open>openPanel\<close> leaves \<open>selectedIndex = 0\<close> and an empty query with the
  panel visible, and \<open>closePanel\<close> (also the overlay's click handler) leaves
  \<open>selectedIndex = 0\<close> and an empty query with the panel hidden. The hotkey runs
  \<open>closePanel\<close> on an open panel and \<open>openPanel\<close> on a closed one, Escape on an open panel
  runs \<open>closePanel\<close>, and the watcher of the query changes nothing afterwards.
\<close>

theorem open_and_close_reset:
  "selectedIndex (fst (openPanel c)) = 0 \<and> searchQuery (fst (openPanel c)) = []
   \<and> visible (fst (openPanel c))
   \<and> selectedIndex (closePanel c) = 0 \<and> searchQuery (closePanel c) = []
   \<and> \<not> visible (closePanel c)
   \<and> ((metaKey e \<or> ctrlKey e) \<and> key e = ''k'' \<longrightarrow>
        fst (handleGlobalKeydown e c) = (if visible c then closePanel c else fst (openPanel c)))
   \<and> (visible c \<and> key e = ''Escape'' \<longrightarrow>
        handleKeydown h e c = Returned (closePanel c) [PreventDefault])
   \<and> watchSearchQuery old (closePanel c) = closePanel c
   \<and> watchSearchQuery old (fst (openPanel c)) = fst (openPanel c)"
  by (simp add: openPanel_def closePanel_def handleGlobalKeydown_def handleKeydown_def
      watchSearchQuery_def)

theorem open_and_close_reset_witness:
  "fst (handleGlobalKeydown hotkey (panel [0, 1, 2] False ''ab'' 2)) = panel [0, 1, 2] True [] 0
   \<and> fst (handleGlobalKeydown hotkey (panel [0, 1, 2] True ''ab'' 2)) = panel [0, 1, 2] False [] 0
   \<and> handleKeydown demoHeap (pressed ''Escape'') (panel [0, 1, 2] True ''ab'' 2) =
       Returned (panel [0, 1, 2] False [] 0) [PreventDefault]"
  using open_and_close_reset [of "panel [0, 1, 2] False ''ab'' 2" hotkey demoHeap "[]"]
    open_and_close_reset [of "panel [0, 1, 2] True ''ab'' 2" hotkey demoHeap "[]"]
    open_and_close_reset [of "panel [0, 1, 2] True ''ab'' 2" "pressed ''Escape''" demoHeap "[]"]
  by (simp add: model_defs demo_defs)

text \<open>
  C6: \<open>handleGlobalKeydown\<close> acts exactly on a key event with \<open>metaKey\<close> or \<open>ctrlKey\<close> set
  and the key \<open>k\<close>. On such an event it inverts \<open>visible\<close>, so two of them in a row give
  back the visibility they started from; on any other event it changes nothing and asks
  for nothing.
\<close>

theorem hotkey_toggles_visibility:
  "((metaKey e \<or> ctrlKey e) \<and> key e = ''k'' \<longrightarrow>
      visible (fst (handleGlobalKeydown e c)) = (\<not> visible c)
      \<and> visible (fst (handleGlobalKeydown e (fst (handleGlobalKeydown e c)))) = visible c)
   \<and> (\<not> ((metaKey e \<or> ctrlKey e) \<and> key e = ''k'') \<longrightarrow> handleGlobalKeydown e c = (c, []))"
  by (simp add: handleGlobalKeydown_def openPanel_def closePanel_def)

theorem hotkey_toggles_visibility_witness:
  "visible (fst (handleGlobalKeydown hotkey (panel [0, 1, 2] False [] 0))) = True
   \<and> visible (fst (handleGlobalKeydown hotkey
        (fst (handleGlobalKeydown hotkey (panel [0, 1, 2] False [] 0))))) = False
   \<and> handleGlobalKeydown (pressed ''k'') (panel [0, 1, 2] False [] 0) =
       (panel [0, 1, 2] False [] 0, [])"
  using hotkey_toggles_visibility [of hotkey "panel [0, 1, 2] False [] 0"]
    hotkey_toggles_visibility [of "pressed ''k''" "panel [0, 1, 2] False [] 0"]
  by (simp add: model_defs demo_defs)

subsection \<open>The search query\<close>

text \<open>
  C7: the grouped mapping and the flattened list are functions of the \<open>commands\<close> prop
  alone. Two instances with the same commands have the same mapping and the same
  flattened list, whatever their queries (and whatever the rest of their state).
\<close>

theorem query_does_not_filter:
  "commands c1 = commands c2 \<Longrightarrow>
   groupedCommands h c1 = groupedCommands h c2
   \<and> flattenedCommands h c1 = flattenedCommands h c2"
  by (simp add: flattenedCommands_def groupedCommands_def)

theorem query_does_not_filter_witness:
  "groupedCommands demoHeap (panel [0, 1, 2] True ''sys'' 0) =
     groupedCommands demoHeap (panel [0, 1, 2] True [] 0)
   \<and> flattenedCommands demoHeap (panel [0, 1, 2] True ''sys'' 0) = Inr [0, 1, 2]"
  using query_does_not_filter
    [of "panel [0, 1, 2] True ''sys'' 0" "panel [0, 1, 2] True [] 0" demoHeap]
  by (simp add: model_defs demo_defs)

text \<open>
  C9: an input that changes the query to a different value resets \<open>selectedIndex\<close> to 0,
  while the flattened list stays as it was; so does the watcher of \<open>searchQuery\<close> whenever
  it finds a value different from the one it saw before.
\<close>

theorem query_change_resets_selection:
  "(q \<noteq> searchQuery c \<longrightarrow>
      selectedIndex (onInput q c) = 0 \<and> searchQuery (onInput q c) = q
      \<and> flattenedCommands h (onInput q c) = flattenedCommands h c)
   \<and> (searchQuery c \<noteq> old \<longrightarrow>
      selectedIndex (watchSearchQuery old c) = 0
      \<and> flattenedCommands h (watchSearchQuery old c) = flattenedCommands h c)"
  by (simp add: onInput_def watchSearchQuery_def flattenedCommands_def groupedCommands_def)

theorem query_change_resets_selection_witness:
  "onInput ''s'' (panel [0, 1, 2] True [] 2) = panel [0, 1, 2] True ''s'' 0
   \<and> flattenedCommands demoHeap (onInput ''s'' (panel [0, 1, 2] True [] 2)) = Inr [0, 1, 2]"
  using query_change_resets_selection [of "''s''" "panel [0, 1, 2] True [] 2" demoHeap "[]"]
  by (simp add: model_defs demo_defs)

subsection \<open>Arrow keys\<close>

text \<open>On an empty flattened list Enter finds no command: no action is called.\<close>

lemma empty_list_Enter:
  "visible c \<Longrightarrow> flattenedCommands h c = Inr [] \<Longrightarrow> key e = ''Enter'' \<Longrightarrow>
   handleKeydown h e c = Returned c [PreventDefault]"
  by (auto simp: handleKeydown_def atIndex_def)

text \<open>
  C3: on an empty command list the handler has no guard on the arrow keys. With the
  panel open on no commands and the selection at 0, ArrowDown sets the keyboard-navigation
  flag and moves \<open>selectedIndex\<close> to \<open>-1\<close>.
\<close>

theorem empty_list_ArrowDown_moves_selection:
  "flattenedCommands demoHeap (panel [] True [] 0) = Inr []
   \<and> handleKeydown demoHeap (pressed ''ArrowDown'') (panel [] True [] 0) =
     Returned ((panel [] True [] 0)\<lparr>isKeyboardNavigation := True, selectedIndex := - 1\<rparr>)
       [PreventDefault, ScrollToSelected, ResetNavLater]"
  by (simp add: model_defs demo_defs)


text \<open>
  The flattened list depends on the commands alone, so an arrow key, which leaves them as
  they are, leaves the list as it is; on a non-empty list one arrow key keeps an index
  that is inside the list inside it.
\<close>

lemma arrow_step_in_range:
  assumes "visible c" and "flattenedCommands h c = Inr flat" and "flat \<noteq> []"
    and "0 \<le> selectedIndex c" and "selectedIndex c \<le> int (length flat) - 1"
    and "key e = ''ArrowDown'' \<or> key e = ''ArrowUp''"
  shows "\<exists>c' fx. handleKeydown h e c = Returned c' fx \<and> visible c'
           \<and> commands c' = commands c
           \<and> 0 \<le> selectedIndex c' \<and> selectedIndex c' \<le> int (length flat) - 1"
proof -
  have flat': "flattenedCommands h (c\<lparr>isKeyboardNavigation := True\<rparr>) = Inr flat"
    using assms(2) flattenedCommands_cong [of "c\<lparr>isKeyboardNavigation := True\<rparr>" c h] by simp
  have "0 < length flat" using assms(3) by simp
  then show ?thesis using assms(1,4,5,6) flat'
    by (auto simp: handleKeydown_def Let_def)
qed

lemma pressKeys_arrows_in_range:
  assumes "flat \<noteq> []"
    and "\<forall>e \<in> set es. key e = ''ArrowDown'' \<or> key e = ''ArrowUp''"
  shows "visible c \<Longrightarrow> flattenedCommands h c = Inr flat \<Longrightarrow>
         0 \<le> selectedIndex c \<Longrightarrow> selectedIndex c \<le> int (length flat) - 1 \<Longrightarrow>
         \<exists>c' fx. pressKeys h es c = Returned c' fx
           \<and> 0 \<le> selectedIndex c' \<and> selectedIndex c' \<le> int (length flat) - 1"
  using assms(2)
proof (induction es arbitrary: c)
  case Nil
  then show ?case by simp
next
  case (Cons e es)
  from Cons.prems have arrow: "key e = ''ArrowDown'' \<or> key e = ''ArrowUp''" by simp
  from arrow_step_in_range [OF Cons.prems(1) Cons.prems(2) assms(1) Cons.prems(3) Cons.prems(4) arrow]
  obtain c1 fx1 where step: "handleKeydown h e c = Returned c1 fx1"
    and vis: "visible c1" and cmds: "commands c1 = commands c"
    and lo: "0 \<le> selectedIndex c1" and hi: "selectedIndex c1 \<le> int (length flat) - 1"
    by blast
  have flat1: "flattenedCommands h c1 = Inr flat"
    using Cons.prems(2) flattenedCommands_cong [OF cmds, of h] by simp
  from Cons.prems(5) have rest: "\<forall>e \<in> set es. key e = ''ArrowDown'' \<or> key e = ''ArrowUp''"
    by simp
  from Cons.IH [OF vis flat1 lo hi rest]
  obtain c2 fx2 where "pressKeys h es c1 = Returned c2 fx2"
    and "0 \<le> selectedIndex c2" and "selectedIndex c2 \<le> int (length flat) - 1"
    by blast
  with step show ?case by simp
qed

text \<open>
  C2 as the specification states it fails on the empty command list: there \<open>count - 1\<close> is
  \<open>-1\<close>, and one ArrowDown on the open panel moves \<open>selectedIndex\<close> from 0 to \<open>-1\<close>, below 0.
\<close>

theorem arrow_keys_empty_list_counterexample:
  "flattenedCommands demoHeap (panel [] True [] 0) = Inr []
   \<and> pressKeys demoHeap [pressed ''ArrowDown''] (panel [] True [] 0) =
       Returned ((panel [] True [] 0)\<lparr>isKeyboardNavigation := True, selectedIndex := - 1\<rparr>)
         [PreventDefault, ScrollToSelected, ResetNavLater]
   \<and> selectedIndex (state (pressKeys demoHeap [pressed ''ArrowDown''] (panel [] True [] 0))) < 0"
  by (simp add: model_defs demo_defs)

text \<open>
  C2, amended: for every command list whose flattened list is not empty, an ArrowDown on
  the open panel leaves \<open>selectedIndex\<close> at most \<open>count - 1\<close> and an ArrowUp leaves it at
  least 0, whatever it was before; and from a \<open>selectedIndex\<close> in \<open>[0, count - 1]\<close>, as it
  is after opening, every sequence of ArrowDown and ArrowUp key presses returns and leaves
  \<open>selectedIndex\<close> in \<open>[0, count - 1]\<close>. Nothing is said of the empty list.
\<close>

theorem arrow_keys_stay_in_range:
  assumes "visible c" and "flattenedCommands h c = Inr flat" and "flat \<noteq> []"
  shows "(key e = ''ArrowDown'' \<longrightarrow>
            selectedIndex (state (handleKeydown h e c)) \<le> int (length flat) - 1)
         \<and> (key e = ''ArrowUp'' \<longrightarrow> 0 \<le> selectedIndex (state (handleKeydown h e c)))
         \<and> (0 \<le> selectedIndex c \<and> selectedIndex c \<le> int (length flat) - 1
              \<and> (\<forall>e \<in> set es. key e = ''ArrowDown'' \<or> key e = ''ArrowUp'') \<longrightarrow>
            (\<exists>c' fx. pressKeys h es c = Returned c' fx
               \<and> 0 \<le> selectedIndex c' \<and> selectedIndex c' \<le> int (length flat) - 1))"
proof -
  have flat': "flattenedCommands h (c\<lparr>isKeyboardNavigation := True\<rparr>) = Inr flat"
    using assms(2) flattenedCommands_cong [of "c\<lparr>isKeyboardNavigation := True\<rparr>" c h] by simp
  have down: "key e = ''ArrowDown'' \<longrightarrow>
            selectedIndex (state (handleKeydown h e c)) \<le> int (length flat) - 1"
    using assms(1) flat' by (auto simp: handleKeydown_def Let_def)
  have up: "key e = ''ArrowUp'' \<longrightarrow> 0 \<le> selectedIndex (state (handleKeydown h e c))"
    using assms(1) by (simp add: handleKeydown_def)
  show ?thesis
    using down up pressKeys_arrows_in_range [OF assms(3) _ assms(1,2), of es] by blast
qed

theorem arrow_keys_stay_in_range_witness:
  "pressKeys demoHeap
     [pressed ''ArrowDown'', pressed ''ArrowDown'', pressed ''ArrowDown'', pressed ''ArrowUp'']
     (panel [0, 1, 2] True [] 0) =
   Returned ((panel [0, 1, 2] True [] 1)\<lparr>isKeyboardNavigation := True\<rparr>)
     [PreventDefault, ScrollToSelected, ResetNavLater,
      PreventDefault, ScrollToSelected, ResetNavLater,
      PreventDefault, ScrollToSelected, ResetNavLater,
      PreventDefault, ScrollToSelected, ResetNavLater]
   \<and> selectedIndex (state (handleKeydown demoHeap (pressed ''ArrowDown'')
        (panel [0, 1, 2] True [] 2))) = 2
   \<and> selectedIndex (state (handleKeydown demoHeap (pressed ''ArrowUp'')
        (panel [0, 1, 2] True [] 0))) = 0"
  using arrow_keys_stay_in_range [of "panel [0, 1, 2] True [] 0" demoHeap "[0, 1, 2]"
      "pressed ''ArrowUp''"
      "[pressed ''ArrowDown'', pressed ''ArrowDown'', pressed ''ArrowDown'', pressed ''ArrowUp'']"]
    arrow_keys_stay_in_range [of "panel [0, 1, 2] True [] 2" demoHeap "[0, 1, 2]"
      "pressed ''ArrowDown''" "[]"]
  by (simp add: model_defs demo_defs)

subsection \<open>Looking a command up in the flattened list\<close>

text \<open>
  \<open>indexOf\<close> returns the first position that holds the object looked for; the lookup of
  the object at position \<open>j\<close> is a position at or before \<open>j\<close> that holds the same object.
\<close>

lemma indexFrom_found:
  "a \<in> set xs \<Longrightarrow>
   i \<le> indexFrom xs a i \<and> indexFrom xs a i < i + int (length xs)
   \<and> xs ! nat (indexFrom xs a i - i) = a"
proof (induction xs arbitrary: i)
  case Nil
  then show ?case by simp
next
  case (Cons x xs)
  show ?case
  proof (cases "x = a")
    case True
    then show ?thesis by simp
  next
    case False
    with Cons.prems have "a \<in> set xs" by simp
    from Cons.IH [OF this, of "i + 1"]
    have b: "i + 1 \<le> indexFrom xs a (i + 1)" "indexFrom xs a (i + 1) < i + 1 + int (length xs)"
      and v: "xs ! nat (indexFrom xs a (i + 1) - (i + 1)) = a" by auto
    have "nat (indexFrom xs a (i + 1) - i) = Suc (nat (indexFrom xs a (i + 1) - (i + 1)))"
      using b by linarith
    with False b v show ?thesis by simp
  qed
qed

lemma indexFrom_le: "j < length xs \<Longrightarrow> indexFrom xs (xs ! j) i \<le> i + int j"
proof (induction xs arbitrary: i j)
  case Nil
  then show ?case by simp
next
  case (Cons x xs)
  show ?case
  proof (cases j)
    case 0
    then show ?thesis by simp
  next
    case (Suc j')
    with Cons.prems have "j' < length xs" by simp
    from Cons.IH [OF this, of "i + 1"] Suc show ?thesis by simp
  qed
qed

lemma indexOf_nth:
  assumes "j < length xs"
  shows "0 \<le> indexOf xs (xs ! j)" and "indexOf xs (xs ! j) \<le> int j"
    and "xs ! nat (indexOf xs (xs ! j)) = xs ! j"
  using indexFrom_found [of "xs ! j" xs 0] indexFrom_le [OF assms, of 0] assms
  by (simp_all add: indexOf_def)

lemma indexOf_eq_iff:
  assumes "i < length xs" and "j < length xs"
  shows "(indexOf xs (xs ! j) = indexOf xs (xs ! i)) = (xs ! j = xs ! i)"
  using indexOf_nth(3) [OF assms(1)] indexOf_nth(3) [OF assms(2)] by metis

text \<open>
  C8 as the specification states it fails. The lookup (\<open>flattenedCommands.indexOf(command)\<close>,
  in \<open>handleMouseEnter\<close> and in the template) compares objects and never reads an id. The
  objects 0 and 1 have the same id and are looked up at 0 and at 1; and no command list
  at all has two different objects with the same id of which the later is looked up at
  the index of the earlier.
\<close>

theorem duplicate_ids_not_ambiguous_counterexample:
  "flattenedCommands demoHeap (panel [0, 1, 2] True [] 0) = Inr [0, 1, 2]
   \<and> id_cmd (demoHeap 0) = id_cmd (demoHeap 1)
   \<and> indexOf [0, 1, 2] 0 = 0 \<and> indexOf [0, 1, 2] 1 = 1
   \<and> \<not> (\<exists>h c flat i j. flattenedCommands h c = Inr flat \<and> i < j \<and> j < length flat
          \<and> flat ! i \<noteq> flat ! j \<and> id_cmd (h (flat ! i)) = id_cmd (h (flat ! j))
          \<and> indexOf flat (flat ! j) = indexOf flat (flat ! i))"
proof -
  have "\<not> (\<exists>h c flat i j. flattenedCommands h c = Inr flat \<and> i < j \<and> j < length flat
          \<and> flat ! i \<noteq> flat ! j \<and> id_cmd (h (flat ! i)) = id_cmd (h (flat ! j))
          \<and> indexOf flat (flat ! j) = indexOf flat (flat ! i))"
    using indexOf_eq_iff by (metis order.strict_trans)
  then show ?thesis by (simp add: model_defs demo_defs)
qed

text \<open>
  C8, amended: the flattened-index lookup is by object identity. For every command list,
  two entries of the flattened list are looked up at the same index exactly when they are
  the same command object, whatever their ids; the lookup of an entry is the first
  position of its object, so it is a wrong (earlier) index only for a command object that
  occurs twice in the list. Pointer hover sets \<open>selectedIndex\<close> to that lookup unless a
  keyboard navigation is in flight.
\<close>

theorem index_lookup_is_by_identity:
  assumes "flattenedCommands h c = Inr flat" and "i < length flat" and "j < length flat"
  shows "(indexOf flat (flat ! j) = indexOf flat (flat ! i)) = (flat ! j = flat ! i)
         \<and> 0 \<le> indexOf flat (flat ! j) \<and> indexOf flat (flat ! j) \<le> int j
         \<and> flat ! nat (indexOf flat (flat ! j)) = flat ! j
         \<and> (\<not> isKeyboardNavigation c \<longrightarrow>
              handleMouseEnter h (flat ! j) c =
                Returned (c\<lparr>selectedIndex := indexOf flat (flat ! j)\<rparr>) [])"
  using assms indexOf_eq_iff [OF assms(2,3)] indexOf_nth [OF assms(3)]
  by (simp add: handleMouseEnter_def)

theorem index_lookup_is_by_identity_witness:
  "flattenedCommands demoHeap (panel [0, 1, 2] True [] 0) = Inr [0, 1, 2]
   \<and> id_cmd (demoHeap 0) = id_cmd (demoHeap 1)
   \<and> handleMouseEnter demoHeap 1 (panel [0, 1, 2] True [] 0) =
       Returned (panel [0, 1, 2] True [] 1) []
   \<and> flattenedCommands demoHeap (panel [0, 2, 0] True [] 0) = Inr [0, 0, 2]
   \<and> handleMouseEnter demoHeap ([0, 0, 2] ! 1) (panel [0, 2, 0] True [] 2) =
       Returned (panel [0, 2, 0] True [] 0) []"
  using index_lookup_is_by_identity [of demoHeap "panel [0, 1, 2] True [] 0" "[0, 1, 2]" 0 1]
    index_lookup_is_by_identity [of demoHeap "panel [0, 2, 0] True [] 2" "[0, 0, 2]" 0 1]
  by (simp add: model_defs demo_defs)

subsection \<open>Grouping and flattening\<close>

text \<open>
  C5 as the specification states it fails. The commands 0 (category \<open>File\<close>) and 3
  (category \<open>2\<close>) are grouped under \<open>File\<close> and \<open>2\<close>, first seen in this order, but
  \<open>Object.keys\<close> lists the array index \<open>2\<close> first and the flattened list is 3, 0. With
  command 6, whose category is \<open>constructor\<close>, grouping throws and there is no mapping
  and no flattened list.
\<close>

theorem first_seen_order_counterexample:
  "categories demoHeap [0, 3] = [''File'', ''2'']
   \<and> firstSeen (categories demoHeap [0, 3]) = [''File'', ''2'']
   \<and> groupedCommands demoHeap (panel [0, 3] True [] 0) = Inr [(''File'', [0]), (''2'', [3])]
   \<and> flattenedCommands demoHeap (panel [0, 3] True [] 0) = Inr [3, 0]
   \<and> groupedCommands demoHeap (panel [0, 6] True [] 0) = Inl TypeError
   \<and> flattenedCommands demoHeap (panel [0, 6] True [] 0) = Inl TypeError"
  by (simp add: model_defs demo_defs categories_def firstSeen_def)

text \<open>
  C5, amended: for every command list in which no category names a property of
  \<open>Object.prototype\<close>, grouping maps each category name (\<open>Other\<close> for a command whose
  category is absent or empty), in first-seen order, to its commands in input order. The
  flattened list is the concatenation of the groups, the categories that are array
  indices first, in ascending numeric order, then the other categories in first-seen
  order. It is a permutation of the input, and the commands of each category are in it
  in input order. When no category is an array index, the categories are in first-seen
  order. Nothing is said of a category that names a property of \<open>Object.prototype\<close>.
\<close>

theorem grouping_preserves_order:
  assumes "\<forall>a \<in> set (commands c). categoryOf (h a) \<notin> set objectPrototypeKeys"
  shows "groupedCommands h c =
           Inr (map (\<lambda>k. (k, groupOf h (commands c) k)) (firstSeen (categories h (commands c))))
         \<and> (\<exists>flat. flattenedCommands h c = Inr flat
              \<and> flat = concat (map (groupOf h (commands c))
                         (sort_key parseNat
                            (filter isArrayIndex (firstSeen (categories h (commands c))))
                          @ filter (\<lambda>k. \<not> isArrayIndex k)
                              (firstSeen (categories h (commands c)))))
              \<and> mset flat = mset (commands c)
              \<and> (\<forall>k. filter (\<lambda>a. categoryOf (h a) = k) flat = groupOf h (commands c) k)
              \<and> ((\<forall>a \<in> set (commands c). \<not> isArrayIndex (categoryOf (h a))) \<longrightarrow>
                   flat = concat (map (groupOf h (commands c))
                            (firstSeen (categories h (commands c))))))"
proof -
  let ?xs = "commands c"
  let ?g = "specGroups h ?xs"
  let ?flat = "concat (map (groupOf h ?xs) (objectKeys ?g))"
  have grouped: "groupedCommands h c = Inr ?g"
    by (rule groupedCommands_specGroups [OF assms])
  have flat: "flattenedCommands h c = Inr ?flat"
    by (rule flattenedCommands_specGroups [OF assms])
  have keys: "objectKeys ?g =
        sort_key parseNat (filter isArrayIndex (firstSeen (categories h ?xs)))
        @ filter (\<lambda>k. \<not> isArrayIndex k) (firstSeen (categories h ?xs))"
    by (simp add: objectKeys_def Let_def fst_specGroups)
  have dist: "distinct (objectKeys ?g)"
    by (rule distinct_objectKeys) (simp add: fst_specGroups distinct_firstSeen)
  have cover: "set (objectKeys ?g) = set (categories h ?xs)"
    using set_objectKeys [of ?g] fst_specGroups [of h ?xs] set_firstSeen [of "categories h ?xs"]
    by (metis set_map)
  have perm: "mset ?flat = mset ?xs"
    by (rule mset_concat_all_groups [OF dist]) (simp add: cover)
  have within: "\<forall>k. filter (\<lambda>a. categoryOf (h a) = k) ?flat = groupOf h ?xs k"
    by (simp add: filter_concat_groups [OF dist] cover groupOf_absent)
  have plain: "(\<forall>a \<in> set ?xs. \<not> isArrayIndex (categoryOf (h a))) \<longrightarrow>
        ?flat = concat (map (groupOf h ?xs) (firstSeen (categories h ?xs)))"
  proof
    assume "\<forall>a \<in> set ?xs. \<not> isArrayIndex (categoryOf (h a))"
    moreover have "fst ` set ?g = (\<lambda>a. categoryOf (h a)) ` set ?xs"
      using set_objectKeys [of ?g] cover by (simp add: categories_def)
    ultimately have "\<forall>k \<in> fst ` set ?g. \<not> isArrayIndex k"
      by auto
    then have "objectKeys ?g = map fst ?g" by (rule objectKeys_no_index)
    then show "?flat = concat (map (groupOf h ?xs) (firstSeen (categories h ?xs)))"
      by (simp add: fst_specGroups)
  qed
  have grouped': "groupedCommands h c =
        Inr (map (\<lambda>k. (k, groupOf h ?xs k)) (firstSeen (categories h ?xs)))"
    using grouped by (simp only: specGroups_def)
  have shape: "?flat = concat (map (groupOf h ?xs)
        (sort_key parseNat (filter isArrayIndex (firstSeen (categories h ?xs)))
         @ filter (\<lambda>k. \<not> isArrayIndex k) (firstSeen (categories h ?xs))))"
    by (simp only: keys)
  from flat shape perm within plain
  have "\<exists>flat. flattenedCommands h c = Inr flat
          \<and> flat = concat (map (groupOf h ?xs)
                (sort_key parseNat (filter isArrayIndex (firstSeen (categories h ?xs)))
                 @ filter (\<lambda>k. \<not> isArrayIndex k) (firstSeen (categories h ?xs))))
          \<and> mset flat = mset ?xs
          \<and> (\<forall>k. filter (\<lambda>a. categoryOf (h a) = k) flat = groupOf h ?xs k)
          \<and> ((\<forall>a \<in> set ?xs. \<not> isArrayIndex (categoryOf (h a))) \<longrightarrow>
               flat = concat (map (groupOf h ?xs) (firstSeen (categories h ?xs))))"
    by (intro exI [of _ ?flat] conjI)
  with grouped' show ?thesis by (rule conjI)
qed

theorem grouping_preserves_order_witness:
  "list_all (\<lambda>a. categoryOf (demoHeap a) \<notin> set objectPrototypeKeys) [0, 3, 4, 5, 1, 7, 2]
   \<and> groupedCommands demoHeap (panel [0, 3, 4, 5, 1, 7, 2] True [] 0) =
       Inr [(''File'', [0, 1]), (''2'', [3]), (''Other'', [4, 7]), (''10'', [5]),
            (''System'', [2])]
   \<and> flattenedCommands demoHeap (panel [0, 3, 4, 5, 1, 7, 2] True [] 0) =
       Inr [3, 5, 0, 1, 4, 7, 2]
   \<and> flattenedCommands demoHeap (panel [2, 0, 4, 1] True [] 0) = Inr [2, 0, 1, 4]"
  using grouping_preserves_order [of "panel [0, 3, 4, 5, 1, 7, 2] True [] 0" demoHeap]
    grouping_preserves_order [of "panel [2, 0, 4, 1] True [] 0" demoHeap]
  by (simp add: model_defs demo_defs categories_def groupOf_def firstSeen_def)

end
